theory Spec2Isabelle
  imports Complex_Main "HOL-Library.Word"
begin

section \<open>Beat detection (src/core/audio.js, AudioManager.analyzeFullTrack)\<close>

text \<open>
  JavaScript numbers are modelled as exact rationals: times are seconds, timer delays are
  milliseconds, the literals \<open>1.2\<close>, \<open>0.70\<close>, ... are the fractions they denote.
  Rounding of IEEE doubles, \<open>NaN\<close> and the infinities are outside the model.
\<close>

record beat =
  time :: rat
  intensity :: rat

record beatParams =
  minBeatInterval :: rat
  energyThreshold :: rat
  dynamicRange :: rat
  beatDecay :: rat
  historySize :: nat
  minBeatIntensity :: rat

text \<open>The \<open>beatParams\<close> object literal of the constructor (audio.js, lines 16 to 23).\<close>

definition defaultBeatParams :: beatParams where
  "defaultBeatParams =
     \<lparr>minBeatInterval = 500, energyThreshold = 240, dynamicRange = 13 / 10,
      beatDecay = 49 / 50, historySize = 30, minBeatIntensity = 7 / 10\<rparr>"

text \<open>
  The state the frame callback \<open>analyze\<close> reads and writes: the fields \<open>beatMap\<close>,
  \<open>beatHistory\<close> and \<open>dynamicThreshold\<close> of the manager, and the closure variables
  \<open>lastBeatTime\<close>, \<open>lastEnergy\<close> and \<open>energyChange\<close> of \<open>analyzeFullTrack\<close>.
\<close>

record detector =
  d_beatMap :: "beat list"
  d_beatHistory :: "rat list"
  d_dynamicThreshold :: rat
  lastBeatTime :: rat
  lastEnergy :: rat
  energyChange :: rat

text \<open>Lines 87 to 94: the values every analysis run starts from.\<close>

definition freshDetector :: detector where
  "freshDetector =
     \<lparr>d_beatMap = [], d_beatHistory = [], d_dynamicThreshold = 0,
      lastBeatTime = 0, lastEnergy = 0, energyChange = 0\<rparr>"

text \<open>
  One frame is the analyser's byte magnitudes (a \<open>Uint8Array\<close>) and the position
  \<open>analysisAudio.currentTime\<close> read in that frame.
\<close>

type_synonym frame = "8 word list \<times> rat"

text \<open>An energy sample: \<open>(currentTime, totalEnergy)\<close>.\<close>

type_synonym sample = "rat \<times> rat"

text \<open>
  \<open>range.reduce((a, b) => a + b, 0) / range.length\<close>. The analyser has 512 bins, so the
  three slices always hold four bytes; on an empty slice JavaScript gives \<open>NaN\<close>, the
  model \<open>0\<close>.
\<close>

definition bandMean :: "8 word list \<Rightarrow> rat" where
  "bandMean band = of_nat (sum_list (map unat band)) / of_nat (length band)"

text \<open>Lines 104 to 114.\<close>

definition totalEnergyOf :: "8 word list \<Rightarrow> rat" where
  "totalEnergyOf dataArray =
     (let subBassRange = take 4 dataArray;
          bassRange = take 4 (drop 4 dataArray);
          lowMidRange = take 4 (drop 8 dataArray);
          subBassEnergy = bandMean subBassRange * (6 / 5);
          bassEnergy = bandMean bassRange;
          lowMidEnergy = bandMean lowMidRange * (4 / 5)
      in subBassEnergy * (1 / 2) + bassEnergy * (3 / 10) + lowMidEnergy * (1 / 5))"

text \<open>
  Lines 116 to 163, for one energy sample. First the part every frame runs: energy
  change, history (a FIFO bounded by \<open>historySize\<close>), dynamic threshold.
\<close>

definition trackEnergy :: "beatParams \<Rightarrow> detector \<Rightarrow> sample \<Rightarrow> detector" where
  "trackEnergy p d smp =
     (let totalEnergy = snd smp;
          change = totalEnergy - lastEnergy d;
          pushed = d_beatHistory d @ [totalEnergy];
          history = (if length pushed > historySize p then tl pushed else pushed);
          threshold =
            (if length history \<ge> min 10 (historySize p)
             then (sum_list history / of_nat (length history)) * dynamicRange p * beatDecay p
             else d_dynamicThreshold d)
      in d\<lparr>d_beatHistory := history, d_dynamicThreshold := threshold,
            lastEnergy := totalEnergy, energyChange := change\<rparr>)"

text \<open>Lines 134 to 139: the candidate test with its debounce gate.\<close>

definition candidateBeat :: "beatParams \<Rightarrow> detector \<Rightarrow> sample \<Rightarrow> bool" where
  "candidateBeat p d smp =
     (let currentTime = fst smp;
          totalEnergy = snd smp;
          change = totalEnergy - lastEnergy d;
          timeSinceLastBeat = currentTime - lastBeatTime d
      in (totalEnergy > energyThreshold p \<or> change > energyThreshold p / 2)
         \<and> timeSinceLastBeat \<ge> minBeatInterval p / 1000)"

text \<open>Lines 142 to 147.\<close>

definition beatIntensity :: "beatParams \<Rightarrow> detector \<Rightarrow> sample \<Rightarrow> rat" where
  "beatIntensity p d smp =
     (let totalEnergy = snd smp;
          change = totalEnergy - lastEnergy d;
          energyIntensity = min (totalEnergy / 255) 1;
          changeIntensity = min (max change 0 / 100) 1
      in max (min ((energyIntensity + changeIntensity) / 2) 1) (minBeatIntensity p))"

text \<open>Whether the frame reaches the \<open>beatMap.push\<close> of line 152.\<close>

definition emitsBeat :: "beatParams \<Rightarrow> detector \<Rightarrow> sample \<Rightarrow> bool" where
  "emitsBeat p d smp =
     (candidateBeat p d smp \<and> beatIntensity p d smp \<ge> minBeatIntensity p)"

definition detectStep :: "beatParams \<Rightarrow> detector \<Rightarrow> sample \<Rightarrow> detector" where
  "detectStep p d smp =
     (let d1 = trackEnergy p d smp
      in if emitsBeat p d smp
         then d1\<lparr>d_beatMap := d_beatMap d1 @
                    [\<lparr>time = fst smp, intensity = beatIntensity p d smp\<rparr>],
                 lastBeatTime := fst smp\<rparr>
         else d1)"

text \<open>The detector over a whole sequence of energy samples, in time order.\<close>

definition detectRun :: "beatParams \<Rightarrow> detector \<Rightarrow> sample list \<Rightarrow> detector" where
  "detectRun p d smps = foldl (detectStep p) d smps"

definition sampleOf :: "frame \<Rightarrow> sample" where
  "sampleOf fr = (snd fr, totalEnergyOf (fst fr))"

text \<open>
  Lines 180 to 188. \<open>Array.prototype.sort\<close> with the comparator \<open>a.time - b.time\<close> is a
  stable sort by time; the filter callback reads \<open>array[index - 1]\<close> of the sorted array
  it is filtering, whether or not that element was kept.
\<close>

definition keepBeat :: "beatParams \<Rightarrow> beat list \<Rightarrow> nat \<times> beat \<Rightarrow> bool" where
  "keepBeat p array ib =
     (case ib of (index, b) \<Rightarrow>
        if index = 0 then True
        else (let timeDiff = time b - time (array ! (index - 1))
              in timeDiff \<ge> minBeatInterval p / 1000
                 \<or> intensity b > intensity (array ! (index - 1)) * (6 / 5)))"

definition filterBeats :: "beatParams \<Rightarrow> beat list \<Rightarrow> beat list" where
  "filterBeats p array = map snd (filter (keepBeat p array) (enumerate 0 array))"

definition postProcess :: "beatParams \<Rightarrow> beat list \<Rightarrow> beat list" where
  "postProcess p bm = filterBeats p (sort_key time bm)"

text \<open>
  Detector and post-processing over a sequence of energy samples: what an analysis run
  computes from the samples of its frames.
\<close>

definition analyzeSamples :: "beatParams \<Rightarrow> sample list \<Rightarrow> beat list" where
  "analyzeSamples p smps = postProcess p (d_beatMap (detectRun p freshDetector smps))"

text \<open>
  The frame loop of lines 98 to 170 over the frames the analysis playback delivers. Line
  160 writes the beat count into \<open>this.debugDiv\<close>, which exists only when the constructor
  built the debug panel (host \<open>localhost\<close>); without it the frame that emits a beat
  throws after the push, \<open>requestAnimationFrame(analyze)\<close> is not reached and the loop
  stops. The result is the detector and whether the loop is still alive.
\<close>

fun analyzeFrames :: "bool \<Rightarrow> beatParams \<Rightarrow> detector \<Rightarrow> frame list \<Rightarrow> detector \<times> bool" where
  "analyzeFrames dbg p d [] = (d, True)"
| "analyzeFrames dbg p d (fr # frs) =
     (let d' = detectStep p d (sampleOf fr)
      in if emitsBeat p d (sampleOf fr) \<and> \<not> dbg then (d', False)
         else analyzeFrames dbg p d' frs)"

section \<open>The manager, its timers and the audio element (src/core/audio.js)\<close>

text \<open>
  A promise settles with a value, is rejected, or never settles. An awaited operation
  takes no time on the timer clock: the clock moves only in \<open>elapse\<close>.
\<close>

datatype 'a outcome = Resolved 'a | Rejected | Pending

datatype ctxState = Suspended | Running

record audioElem =
  a_currentTime :: rat
  a_paused :: bool

text \<open>
  The two closures handed to \<open>setTimeout\<close>: the one of \<open>start\<close> (lines 290 to 295) and
  the one of \<open>resume\<close> (lines 337 to 341), each closed over its beat.
\<close>

datatype timerBody = StartTimer beat | ResumeTimer beat

record timer =
  due :: rat
  body :: timerBody

type_synonym callback = nat

text \<open>One invocation of the registered callback, with the arguments it was given.\<close>

record call =
  callee :: callback
  args :: "rat list"

text \<open>
  The fields of \<open>AudioManager\<close>, followed by what the browser holds for it: the pending
  timers, the wall clock in milliseconds and the record of callback invocations.
\<close>

record manager =
  audioUrl :: "string option"
  audioContext :: "ctxState option"
  audioElement :: "audioElem option"
  isInitialized :: bool
  isPlaying :: bool
  beatMap :: "beat list"
  isAnalyzed :: bool
  onBeatDetected :: "callback option"
  beatParams :: beatParams
  beatHistory :: "rat list"
  dynamicThreshold :: rat
  debugDiv :: bool
  timers :: "timer list"
  now :: rat
  calls :: "call list"

text \<open>The constructor; \<open>dbg\<close> says whether the page is served from \<open>localhost\<close>.\<close>

definition newManager :: "bool \<Rightarrow> manager" where
  "newManager dbg =
     \<lparr>audioUrl = None, audioContext = None, audioElement = None,
      isInitialized = False, isPlaying = False, beatMap = [], isAnalyzed = False,
      onBeatDetected = None, beatParams = defaultBeatParams, beatHistory = [],
      dynamicThreshold = 0, debugDiv = dbg, timers = [], now = 0, calls = []\<rparr>"

text \<open>
  What the environment answers during one call: whether the track loads, the state of a
  new audio context, what the silent analysis playback delivers (\<open>None\<close>: it errors or
  its \<open>play()\<close> is rejected; \<open>Some frames\<close>: these frames, then \<open>ended\<close>), whether
  \<open>audioContext.resume()\<close> and \<open>audioElement.play()\<close> succeed.
\<close>

record env =
  loadOk :: bool
  ctxStart :: ctxState
  analysisRun :: "frame list option"
  ctxResumeOk :: bool
  playOk :: bool

definition setAudioTrack :: "string \<Rightarrow> manager \<Rightarrow> manager" where
  "setAudioTrack url s =
     s\<lparr>audioUrl := Some url, isInitialized := False, isAnalyzed := False, beatMap := []\<rparr>"

text \<open>Lines 229 to 260.\<close>

definition initializeWithFile :: "env \<Rightarrow> string \<Rightarrow> manager \<Rightarrow> unit outcome \<times> manager" where
  "initializeWithFile e url s =
     (let s1 = s\<lparr>audioElement := Some \<lparr>a_currentTime = 0, a_paused = True\<rparr>\<rparr>
      in if loadOk e then (Resolved (), s1\<lparr>isInitialized := True\<rparr>) else (Rejected, s1))"

text \<open>Lines 210 to 227.\<close>

definition initialize :: "env \<Rightarrow> manager \<Rightarrow> unit outcome \<times> manager" where
  "initialize e s =
     (if isInitialized s then (Resolved (), s)
      else
        (let s1 = s\<lparr>audioContext := Some (ctxStart e)\<rparr>
         in case audioUrl s1 of
              None \<Rightarrow> (Resolved (), s1\<lparr>isInitialized := True\<rparr>)
            | Some url \<Rightarrow>
                (case initializeWithFile e url s1 of
                   (Resolved u, s2) \<Rightarrow> (Resolved (), s2\<lparr>isInitialized := True\<rparr>)
                 | (Rejected, s2) \<Rightarrow> (Rejected, s2)
                 | (Pending, s2) \<Rightarrow> (Pending, s2))))"

text \<open>
  Lines 39 to 207, what \<open>analyzeFullTrack\<close> does once the manager is initialized. The
  promise is rejected when the executor throws on a missing audio element (line 46) or
  the analysis playback fails; it resolves with the filtered map when the playback ends;
  it never settles when the frame loop has stopped.
\<close>

definition runAnalysis :: "env \<Rightarrow> manager \<Rightarrow> beat list outcome \<times> manager" where
  "runAnalysis e s =
     (let s2 = s\<lparr>beatMap := []\<rparr>
      in case audioElement s2 of
           None \<Rightarrow> (Rejected, s2)
         | Some a \<Rightarrow>
             (let s3 = s2\<lparr>beatHistory := [], dynamicThreshold := 0\<rparr>
              in case analysisRun e of
                   None \<Rightarrow> (Rejected, s3)
                 | Some frames \<Rightarrow>
                     (case analyzeFrames (debugDiv s3) (beatParams s3) freshDetector frames of
                        (d, alive) \<Rightarrow>
                          (let s4 = s3\<lparr>beatMap := d_beatMap d,
                                      beatHistory := d_beatHistory d,
                                      dynamicThreshold := d_dynamicThreshold d\<rparr>
                           in if alive
                              then (let bm = postProcess (beatParams s4) (beatMap s4)
                                    in (Resolved bm, s4\<lparr>beatMap := bm, isAnalyzed := True\<rparr>))
                              else (Pending, s4)))))"

text \<open>Lines 34 to 208.\<close>

definition analyzeFullTrack :: "env \<Rightarrow> manager \<Rightarrow> beat list outcome \<times> manager" where
  "analyzeFullTrack e s =
     (case (if \<not> isInitialized s then initialize e s else (Resolved (), s)) of
        (Rejected, s1) \<Rightarrow> (Rejected, s1)
      | (Pending, s1) \<Rightarrow> (Pending, s1)
      | (Resolved u, s1) \<Rightarrow> runAnalysis e s1)"

text \<open>
  \<open>setTimeout(f, delay)\<close>: a negative delay counts as zero; the timer is due \<open>delay\<close>
  milliseconds after the current wall-clock time. Nothing in the file cancels a timer.
\<close>

definition setTimeout :: "timerBody \<Rightarrow> rat \<Rightarrow> manager \<Rightarrow> manager" where
  "setTimeout f delay s = s\<lparr>timers := timers s @ [\<lparr>due = now s + max 0 delay, body = f\<rparr>]\<rparr>"

text \<open>Lines 290 to 295 and 337 to 341: what a timer does when it fires.\<close>

fun fire :: "manager \<Rightarrow> timerBody \<Rightarrow> manager" where
  "fire s (StartTimer b) =
     (case onBeatDetected s of
        Some cb \<Rightarrow>
          if isPlaying s
          then s\<lparr>calls := calls s @ [\<lparr>callee = cb, args = [intensity b, time b]\<rparr>]\<rparr>
          else s
      | None \<Rightarrow> s)"
| "fire s (ResumeTimer b) =
     (case onBeatDetected s of
        Some cb \<Rightarrow>
          if isPlaying s
          then s\<lparr>calls := calls s @ [\<lparr>callee = cb, args = [intensity b]\<rparr>]\<rparr>
          else s
      | None \<Rightarrow> s)"

text \<open>
  The passage of \<open>dt\<close> milliseconds with no call into the manager: the timers that fall
  due fire in the order of their due times (ties in the order they were armed), and a
  playing audio element moves on by the same time, timer clock and audio clock being
  taken as coherent.
\<close>

definition elapse :: "rat \<Rightarrow> manager \<Rightarrow> manager" where
  "elapse dt s =
     (let t = now s + dt;
          ready = filter (\<lambda>x. due x \<le> t) (timers s);
          waiting = filter (\<lambda>x. \<not> due x \<le> t) (timers s);
          audio = (case audioElement s of
                     None \<Rightarrow> None
                   | Some a \<Rightarrow>
                       Some (if a_paused a then a
                             else a\<lparr>a_currentTime := a_currentTime a + dt / 1000\<rparr>));
          s1 = s\<lparr>now := t, timers := waiting, audioElement := audio\<rparr>
      in foldl fire s1 (map body (sort_key due ready)))"

text \<open>
  Lines 278 to 304, what \<open>start\<close> does once initialization and analysis are through.
  Everything from line 280 on is inside \<open>try\<close>, whose \<open>catch\<close> returns \<open>false\<close>: a
  missing context or element (a \<open>TypeError\<close>), a rejected \<open>audioContext.resume()\<close> and
  a rejected \<open>play()\<close> all end there.
\<close>

definition beginPlayback :: "env \<Rightarrow> callback option \<Rightarrow> manager \<Rightarrow> bool outcome \<times> manager" where
  "beginPlayback e beatCallback s =
     (let s3 = s\<lparr>onBeatDetected := beatCallback\<rparr>
      in case audioContext s3 of
           None \<Rightarrow> (Resolved False, s3)
         | Some st \<Rightarrow>
             if st = Suspended \<and> \<not> ctxResumeOk e then (Resolved False, s3)
             else
               (let s4 = s3\<lparr>audioContext := Some Running\<rparr>
                in case audioElement s4 of
                     None \<Rightarrow> (Resolved False, s4)
                   | Some a \<Rightarrow>
                       (let s5 = s4\<lparr>audioElement := Some (a\<lparr>a_currentTime := 0\<rparr>),
                                   isPlaying := True\<rparr>;
                            s6 = foldl (\<lambda>x b. setTimeout (StartTimer b) (time b * 1000) x)
                                   s5 (beatMap s5)
                        in if playOk e
                           then (Resolved True,
                                 s6\<lparr>audioElement := Some (a\<lparr>a_currentTime := 0, a_paused := False\<rparr>)\<rparr>)
                           else (Resolved False, s6))))"

text \<open>Lines 269 to 305.\<close>

definition start :: "env \<Rightarrow> callback option \<Rightarrow> manager \<Rightarrow> bool outcome \<times> manager" where
  "start e beatCallback s =
     (case (if \<not> isInitialized s then initialize e s else (Resolved (), s)) of
        (Rejected, s1) \<Rightarrow> (Rejected, s1)
      | (Pending, s1) \<Rightarrow> (Pending, s1)
      | (Resolved u, s1) \<Rightarrow>
          (case (if \<not> isAnalyzed s1 then analyzeFullTrack e s1 else (Resolved [], s1)) of
             (Rejected, s2) \<Rightarrow> (Rejected, s2)
           | (Pending, s2) \<Rightarrow> (Pending, s2)
           | (Resolved bm, s2) \<Rightarrow> beginPlayback e beatCallback s2))"

text \<open>Lines 307 to 322.\<close>

definition stop :: "manager \<Rightarrow> manager" where
  "stop s =
     (let s1 = s\<lparr>isPlaying := False\<rparr>
      in case audioElement s1 of
           None \<Rightarrow> s1
         | Some a \<Rightarrow> s1\<lparr>audioElement := Some (a\<lparr>a_paused := True, a_currentTime := 0\<rparr>)\<rparr>)"

definition pause :: "manager \<Rightarrow> manager" where
  "pause s =
     (let s1 = s\<lparr>isPlaying := False\<rparr>
      in case audioElement s1 of
           None \<Rightarrow> s1
         | Some a \<Rightarrow> s1\<lparr>audioElement := Some (a\<lparr>a_paused := True\<rparr>)\<rparr>)"

text \<open>Lines 324 to 351; the \<open>catch\<close> rethrows.\<close>

definition resume :: "env \<Rightarrow> manager \<Rightarrow> unit outcome \<times> manager" where
  "resume e s =
     (case audioElement s of
        None \<Rightarrow> (Resolved (), s)
      | Some a \<Rightarrow>
          if \<not> isAnalyzed s then (Resolved (), s)
          else
            (case audioContext s of
               None \<Rightarrow> (Rejected, s)
             | Some st \<Rightarrow>
                 if st = Suspended \<and> \<not> ctxResumeOk e then (Rejected, s)
                 else
                   (let s1 = s\<lparr>audioContext := Some Running\<rparr>;
                        currentTime = a_currentTime a;
                        s2 = foldl (\<lambda>x b. setTimeout (ResumeTimer b) ((time b - currentTime) * 1000) x)
                               s1 (filter (\<lambda>b. time b > currentTime) (beatMap s1))
                    in if playOk e
                       then (Resolved (),
                             s2\<lparr>audioElement := Some (a\<lparr>a_paused := False\<rparr>), isPlaying := True\<rparr>)
                       else (Rejected, s2))))"

text \<open>A playback session: calls into the manager with time passing between them.\<close>

datatype action = Start "callback option" | Pause | Stop | Resume | Wait rat

fun perform :: "env \<Rightarrow> manager \<Rightarrow> action \<Rightarrow> manager" where
  "perform e s (Start cb) = snd (start e cb s)"
| "perform e s Pause = pause s"
| "perform e s Stop = stop s"
| "perform e s Resume = snd (resume e s)"
| "perform e s (Wait dt) = elapse dt s"

definition session :: "env \<Rightarrow> manager \<Rightarrow> action list \<Rightarrow> manager" where
  "session e s acts = foldl (perform e) s acts"

section \<open>Obstacle planning (src/core/level.js, LevelGenerator)\<close>

text \<open>The numeric entries of \<open>obstacleSettings\<close> (lines 14 to 23); the colours are left out.\<close>

record obstacleSettings =
  baseSize :: rat
  maxSize :: rat
  baseHeight :: rat
  maxHeight :: rat
  spawnDistance :: rat
  despawnDistance :: rat

text \<open>An obstacle of the scene: the position and the dimensions \<open>createPyramid\<close> gives it.\<close>

record obstacle =
  ob_x :: rat
  ob_y :: rat
  ob_size :: rat
  ob_height :: rat

record planned =
  position :: rat
  p_intensity :: rat
  spawned :: bool

text \<open>
  \<open>plannedObstacles\<close> is a JavaScript \<open>Map\<close> keyed by beat time: an association list in
  insertion order, in which \<open>set\<close> on a present key replaces the value where it stands.
\<close>

record levelGenerator =
  obstacleQueue :: "obstacle list"
  plannedObstacles :: "(rat \<times> planned) list"
  lastObstaclePosition :: rat
  minObstacleDistance :: rat
  maxObstacleDistance :: rat
  settings :: obstacleSettings

definition newLevelGenerator :: levelGenerator where
  "newLevelGenerator =
     \<lparr>obstacleQueue = [], plannedObstacles = [], lastObstaclePosition = 0,
      minObstacleDistance = 5, maxObstacleDistance = 15,
      settings = \<lparr>baseSize = 4 / 5, maxSize = 2, baseHeight = 3 / 2, maxHeight = 3,
                  spawnDistance = 35, despawnDistance = - 20\<rparr>\<rparr>"

fun mapSet :: "'k \<Rightarrow> 'v \<Rightarrow> ('k \<times> 'v) list \<Rightarrow> ('k \<times> 'v) list" where
  "mapSet k v [] = [(k, v)]"
| "mapSet k v ((k', v') # m) = (if k' = k then (k, v) # m else (k', v') # mapSet k v m)"

text \<open>
  Lines 26 to 54, with \<open>speed\<close> for \<open>this.game.speed\<close>. The accumulator is the map and
  \<open>lastBeatTime\<close>, where \<open>None\<close> stands for \<open>-Infinity\<close>.
\<close>

definition planBeat :: "obstacleSettings \<Rightarrow> rat \<Rightarrow> (rat \<times> planned) list \<times> rat option \<Rightarrow> beat
                        \<Rightarrow> (rat \<times> planned) list \<times> rat option" where
  "planBeat st speed acc b =
     (case acc of (m, lastBeat) \<Rightarrow>
        if (case lastBeat of None \<Rightarrow> True | Some l \<Rightarrow> time b - l \<ge> 1 / 5)
        then (let spawnTime = time b;
                  spawnPosition = spawnDistance st + speed * spawnTime
              in (mapSet (time b)
                    \<lparr>position = spawnPosition, p_intensity = intensity b, spawned = False\<rparr> m,
                  Some (time b)))
        else (m, lastBeat))"

definition preplanObstacles :: "rat \<Rightarrow> beat list \<Rightarrow> levelGenerator \<Rightarrow> levelGenerator" where
  "preplanObstacles speed bm s =
     s\<lparr>plannedObstacles := fst (foldl (planBeat (settings s) speed) ([], None) bm)\<rparr>"

text \<open>Lines 101 to 148, the geometry and materials apart.\<close>

definition createPyramid :: "obstacleSettings \<Rightarrow> rat \<Rightarrow> rat \<Rightarrow> obstacle" where
  "createPyramid st x intens =
     (let size = baseSize st + (maxSize st - baseSize st) * intens;
          height = baseHeight st + (maxHeight st - baseHeight st) * intens
      in \<lparr>ob_x = x, ob_y = height / 2, ob_size = size, ob_height = height\<rparr>)"

text \<open>Lines 66 to 71.\<close>

definition spawnObstacle :: "rat \<Rightarrow> rat \<Rightarrow> levelGenerator \<Rightarrow> levelGenerator" where
  "spawnObstacle pos intens s =
     s\<lparr>obstacleQueue := obstacleQueue s @ [createPyramid (settings s) pos intens],
       lastObstaclePosition := pos\<rparr>"

text \<open>Lines 56 to 64.\<close>

definition generateObstacleOnBeat :: "rat \<Rightarrow> rat \<Rightarrow> levelGenerator \<Rightarrow> levelGenerator" where
  "generateObstacleOnBeat intens playerFuturePos s =
     (let spawnPosition = playerFuturePos + spawnDistance (settings s)
      in if \<bar>spawnPosition - lastObstaclePosition s\<bar> \<ge> minObstacleDistance s
         then spawnObstacle spawnPosition intens s
         else s)"

text \<open>
  Lines 78 to 89, the body of the \<open>forEach\<close> for one entry of the map: the generator and
  the entry after the visit.
\<close>

definition visitPlanned :: "rat \<Rightarrow> rat \<Rightarrow> levelGenerator \<Rightarrow> rat \<Rightarrow> planned
                            \<Rightarrow> levelGenerator \<times> planned" where
  "visitPlanned currentTime playerX s beatTime ob =
     (if \<not> spawned ob
      then (let timeUntilBeat = beatTime - currentTime
            in if timeUntilBeat > 0 \<and> timeUntilBeat \<le> 5 / 2
               then (let spawnPosition = playerX + spawnDistance (settings s)
                     in if \<bar>spawnPosition - lastObstaclePosition s\<bar> \<ge> minObstacleDistance s
                        then (spawnObstacle spawnPosition (p_intensity ob) s, ob\<lparr>spawned := True\<rparr>)
                        else (s, ob))
               else (s, ob))
      else (s, ob))"

fun lookAhead :: "rat \<Rightarrow> rat \<Rightarrow> levelGenerator \<Rightarrow> (rat \<times> planned) list
                  \<Rightarrow> levelGenerator \<times> (rat \<times> planned) list" where
  "lookAhead currentTime playerX s [] = (s, [])"
| "lookAhead currentTime playerX s ((beatTime, ob) # rest) =
     (case visitPlanned currentTime playerX s beatTime ob of
        (s1, ob1) \<Rightarrow>
          (case lookAhead currentTime playerX s1 rest of
             (s2, rest') \<Rightarrow> (s2, (beatTime, ob1) # rest')))"

text \<open>
  Lines 73 to 99, with \<open>currentTime\<close> for the audio element's position and \<open>playerX\<close> for
  the player's position in this frame.
\<close>

definition update :: "rat \<Rightarrow> rat \<Rightarrow> levelGenerator \<Rightarrow> levelGenerator" where
  "update currentTime playerX s =
     (case lookAhead currentTime playerX s (plannedObstacles s) of
        (s1, pl) \<Rightarrow>
          s1\<lparr>plannedObstacles := pl,
             obstacleQueue :=
               filter (\<lambda>ob. \<not> ob_x ob < playerX + despawnDistance (settings s1))
                      (obstacleQueue s1)\<rparr>)"

text \<open>Lines 165 to 172.\<close>

definition reset :: "levelGenerator \<Rightarrow> levelGenerator" where
  "reset s = s\<lparr>obstacleQueue := [], plannedObstacles := [], lastObstaclePosition := 0\<rparr>"

text \<open>
  What reaches the generator during play: a beat callback, which hands over the
  intensity and the player's expected position, or a frame of the game loop.
\<close>

datatype gameEvent = Beat rat rat | Frame rat rat

fun react :: "levelGenerator \<Rightarrow> gameEvent \<Rightarrow> levelGenerator" where
  "react s (Beat intens playerFuturePos) = generateObstacleOnBeat intens playerFuturePos s"
| "react s (Frame currentTime playerX) = update currentTime playerX s"

definition play :: "levelGenerator \<Rightarrow> gameEvent list \<Rightarrow> levelGenerator" where
  "play s evs = foldl react s evs"

text \<open>The position a game event proposes for a new obstacle.\<close>

fun proposed :: "levelGenerator \<Rightarrow> gameEvent \<Rightarrow> rat" where
  "proposed s (Beat intens playerFuturePos) = playerFuturePos + spawnDistance (settings s)"
| "proposed s (Frame currentTime playerX) = playerX + spawnDistance (settings s)"

text \<open>
  Every two obstacles of the queue, the live ones, are at least \<open>minObstacleDistance\<close>
  apart.
\<close>

definition wellSpaced :: "levelGenerator \<Rightarrow> bool" where
  "wellSpaced s =
     sorted_wrt (\<lambda>a b. \<bar>ob_x b - ob_x a\<bar> \<ge> minObstacleDistance s) (obstacleQueue s)"

text \<open>No obstacle of the queue lies beyond \<open>lastObstaclePosition\<close>.\<close>

definition trailing :: "levelGenerator \<Rightarrow> bool" where
  "trailing s = list_all (\<lambda>ob. ob_x ob \<le> lastObstaclePosition s) (obstacleQueue s)"

text \<open>
  The invariant of the queue during play: spaced, trailing, and either empty or with
  \<open>lastObstaclePosition\<close> among the positions \<open>B\<close> proposed so far.
\<close>

definition anchored :: "rat set \<Rightarrow> levelGenerator \<Rightarrow> bool" where
  "anchored B s =
     (wellSpaced s \<and> trailing s
      \<and> (obstacleQueue s = [] \<or> lastObstaclePosition s \<in> B))"

section \<open>Inputs for the examples\<close>

text \<open>A frame at position \<open>t\<close> whose twelve lowest bins are at full scale.\<close>

definition loudFrame :: "rat \<Rightarrow> frame" where
  "loudFrame t = ([255, 255, 255, 255, 255, 255, 255, 255, 255, 255, 255, 255], t)"

text \<open>
  An environment in which everything succeeds and the analysis playback delivers loud
  frames at 1 s and 2 s; and the manager of a page served from \<open>localhost\<close> right after
  \<open>setAudioTrack\<close>.
\<close>

definition twoBeatEnv :: env where
  "twoBeatEnv =
     \<lparr>loadOk = True, ctxStart = Suspended, analysisRun = Some [loudFrame 1, loudFrame 2],
      ctxResumeOk = True, playOk = True\<rparr>"

definition trackSet :: manager where
  "trackSet = setAudioTrack ''track.mp3'' (newManager True)"

section \<open>Properties of the beat map\<close>

text \<open>Two beats at least \<open>minBeatInterval\<close> milliseconds apart, the later one second.\<close>

definition gapOk :: "beatParams \<Rightarrow> beat \<Rightarrow> beat \<Rightarrow> bool" where
  "gapOk p a b = (time b - time a \<ge> minBeatInterval p / 1000)"

text \<open>The disjunction of the post-filter, read on two neighbours of a list.\<close>

definition gapOrStronger :: "beatParams \<Rightarrow> beat \<Rightarrow> beat \<Rightarrow> bool" where
  "gapOrStronger p a b =
     (time b - time a \<ge> minBeatInterval p / 1000 \<or> intensity b > intensity a * (6 / 5))"

text \<open>
  The debounce invariant of the frame loop: neighbours of the raw map keep the gap, and
  \<open>lastBeatTime\<close> is the time of the last beat pushed.
\<close>

definition debounced :: "beatParams \<Rightarrow> detector \<Rightarrow> bool" where
  "debounced p d =
     (successively (gapOk p) (d_beatMap d)
      \<and> (d_beatMap d = [] \<or> lastBeatTime d = time (last (d_beatMap d))))"

text \<open>Two detector states that agree on everything the emission of a beat reads.\<close>

definition sameBeats :: "detector \<Rightarrow> detector \<Rightarrow> bool" where
  "sameBeats d1 d2 =
     (d_beatMap d1 = d_beatMap d2 \<and> lastBeatTime d1 = lastBeatTime d2
      \<and> lastEnergy d1 = lastEnergy d2)"

text \<open>Two parameter sets that agree on the parameters of the candidate test.\<close>

definition sameGate :: "beatParams \<Rightarrow> beatParams \<Rightarrow> bool" where
  "sameGate p q =
     (minBeatInterval p = minBeatInterval q \<and> energyThreshold p = energyThreshold q
      \<and> minBeatIntensity p = minBeatIntensity q)"

text \<open>
  How the promise of an analysis run settles, and the map the run leaves in the manager,
  as functions of what the run reads.
\<close>

definition runResult :: "env \<Rightarrow> bool \<Rightarrow> beatParams \<Rightarrow> beat list outcome" where
  "runResult e dbg p =
     (case analysisRun e of
        None \<Rightarrow> Rejected
      | Some frames \<Rightarrow>
          if snd (analyzeFrames dbg p freshDetector frames)
          then Resolved (postProcess p (d_beatMap (fst (analyzeFrames dbg p freshDetector frames))))
          else Pending)"

definition runMap :: "env \<Rightarrow> bool \<Rightarrow> beatParams \<Rightarrow> beat list" where
  "runMap e dbg p =
     (case analysisRun e of
        None \<Rightarrow> []
      | Some frames \<Rightarrow>
          if snd (analyzeFrames dbg p freshDetector frames)
          then postProcess p (d_beatMap (fst (analyzeFrames dbg p freshDetector frames)))
          else d_beatMap (fst (analyzeFrames dbg p freshDetector frames)))"

subsection \<open>The debounce gate and the post-filter\<close>

lemma debounced_fresh: "debounced p freshDetector"
  by (simp add: debounced_def freshDetector_def)

lemma trackEnergy_keeps [simp]:
  "d_beatMap (trackEnergy p d smp) = d_beatMap d"
  "lastBeatTime (trackEnergy p d smp) = lastBeatTime d"
  "lastEnergy (trackEnergy p d smp) = snd smp"
  by (simp_all add: trackEnergy_def Let_def)

lemma detectStep_quiet:
  "\<not> emitsBeat p d smp \<Longrightarrow> detectStep p d smp = trackEnergy p d smp"
  by (simp add: detectStep_def)

lemma detectStep_beatMap:
  "d_beatMap (detectStep p d smp) =
     (if emitsBeat p d smp
      then d_beatMap d @ [\<lparr>time = fst smp, intensity = beatIntensity p d smp\<rparr>]
      else d_beatMap d)"
  by (simp add: detectStep_def Let_def)

lemma detectStep_lastBeatTime:
  "lastBeatTime (detectStep p d smp) = (if emitsBeat p d smp then fst smp else lastBeatTime d)"
  by (simp add: detectStep_def Let_def)

lemma detectStep_lastEnergy: "lastEnergy (detectStep p d smp) = snd smp"
  by (simp add: detectStep_def Let_def)

lemma emitsBeat_gap:
  "emitsBeat p d smp \<Longrightarrow> fst smp - lastBeatTime d \<ge> minBeatInterval p / 1000"
  by (simp add: emitsBeat_def candidateBeat_def Let_def)

lemma debounced_step:
  assumes "debounced p d"
  shows "debounced p (detectStep p d smp)"
proof (cases "emitsBeat p d smp")
  case False
  with assms show ?thesis
    by (simp add: debounced_def detectStep_beatMap detectStep_lastBeatTime)
next
  case True
  note gap = emitsBeat_gap[OF True]
  show ?thesis
  proof (cases "d_beatMap d = []")
    case True
    with \<open>emitsBeat p d smp\<close> show ?thesis
      by (simp add: debounced_def detectStep_beatMap detectStep_lastBeatTime)
  next
    case False
    with assms have "lastBeatTime d = time (last (d_beatMap d))"
      and "successively (gapOk p) (d_beatMap d)"
      by (simp_all add: debounced_def)
    with gap False \<open>emitsBeat p d smp\<close> show ?thesis
      by (simp add: debounced_def detectStep_beatMap detectStep_lastBeatTime
          successively_append_iff gapOk_def)
  qed
qed

lemma debounced_run: "debounced p d \<Longrightarrow> debounced p (detectRun p d smps)"
  unfolding detectRun_def
  by (induction smps arbitrary: d) (simp_all add: debounced_step)

lemma analyzeFrames_debounced:
  "debounced p d \<Longrightarrow> debounced p (fst (analyzeFrames dbg p d frs))"
  by (induction frs arbitrary: d) (simp_all add: Let_def debounced_step)

lemma analyzeFrames_alive:
  "snd (analyzeFrames dbg p d frs) \<Longrightarrow>
     fst (analyzeFrames dbg p d frs) = detectRun p d (map sampleOf frs)"
  unfolding detectRun_def
  by (induction frs arbitrary: d) (auto simp: Let_def split: if_splits)

lemma analyzeFrames_debug:
  "analyzeFrames True p d frs = (detectRun p d (map sampleOf frs), True)"
  unfolding detectRun_def
  by (induction frs arbitrary: d) (simp_all add: Let_def)

lemma successively_nth:
  "successively P xs \<Longrightarrow> Suc i < length xs \<Longrightarrow> P (xs ! i) (xs ! Suc i)"
proof (induction P xs arbitrary: i rule: successively.induct)
  case (3 P x y xs)
  then show ?case by (cases i) auto
qed auto

lemma filterBeats_id:
  assumes "successively (gapOk p) bm"
  shows "filterBeats p bm = bm"
proof -
  have "keepBeat p bm ib" if "ib \<in> set (enumerate 0 bm)" for ib
  proof -
    obtain index b where ib: "ib = (index, b)" by (cases ib)
    from that ib have lt: "index < length bm" and b: "b = bm ! index"
      by (auto simp: in_set_enumerate_eq)
    show ?thesis
    proof (cases index)
      case 0
      then show ?thesis by (simp add: keepBeat_def ib)
    next
      case (Suc j)
      with lt assms have "gapOk p (bm ! j) (bm ! Suc j)"
        by (auto intro: successively_nth)
      then show ?thesis by (simp add: keepBeat_def ib Suc b gapOk_def)
    qed
  qed
  then have "filter (keepBeat p bm) (enumerate 0 bm) = enumerate 0 bm"
    by (simp add: filter_id_conv)
  then show ?thesis by (simp add: filterBeats_def)
qed

lemma gap_sorted_wrt:
  assumes "0 \<le> minBeatInterval p" "successively (gapOk p) bm"
  shows "sorted_wrt (gapOk p) bm"
proof -
  have "transp (gapOk p)"
    using assms(1) by (auto simp: transp_def gapOk_def)
  then show ?thesis using assms(2) by (simp add: successively_conv_sorted_wrt)
qed

lemma gap_sorted_time:
  assumes "0 \<le> minBeatInterval p" "successively (gapOk p) bm"
  shows "sorted (map time bm)"
proof -
  have "sorted_wrt (\<lambda>a b. time a \<le> time b) bm"
  proof (rule sorted_wrt_mono_rel[OF _ gap_sorted_wrt[OF assms]])
    fix a b assume "gapOk p a b"
    with assms(1) show "time a \<le> time b" by (simp add: gapOk_def)
  qed
  then show ?thesis by (simp add: sorted_map)
qed

lemma postProcess_id:
  assumes "0 \<le> minBeatInterval p" "successively (gapOk p) bm"
  shows "postProcess p bm = bm"
  using assms by (simp add: postProcess_def sort_key_id_if_sorted gap_sorted_time filterBeats_id)

subsection \<open>What an analysis run reads and writes\<close>

lemma initializeWithFile_keeps [simp]:
  "beatParams (snd (initializeWithFile e url s)) = beatParams s"
  "debugDiv (snd (initializeWithFile e url s)) = debugDiv s"
  by (simp_all add: initializeWithFile_def Let_def)

lemma initialize_keeps [simp]:
  "beatParams (snd (initialize e s)) = beatParams s"
  "debugDiv (snd (initialize e s)) = debugDiv s"
  by (simp_all add: initialize_def initializeWithFile_def Let_def split: option.splits)

text \<open>The state in which the frame loop of an analysis run starts, when it does.\<close>

lemma analyzeFullTrack_Resolved:
  assumes "fst (analyzeFullTrack e s) = Resolved bm"
  shows "\<exists>frames. analysisRun e = Some frames
           \<and> snd (analyzeFrames (debugDiv s) (beatParams s) freshDetector frames)
           \<and> bm = postProcess (beatParams s)
                    (d_beatMap (fst (analyzeFrames (debugDiv s) (beatParams s) freshDetector frames)))
           \<and> beatMap (snd (analyzeFullTrack e s)) = bm
           \<and> isAnalyzed (snd (analyzeFullTrack e s))
           \<and> beatParams (snd (analyzeFullTrack e s)) = beatParams s"
  using assms
  by (auto simp: analyzeFullTrack_def runAnalysis_def initialize_def initializeWithFile_def Let_def
      split: if_splits option.splits prod.splits outcome.splits)

subsection \<open>Detector states that emit alike\<close>

lemma sameBeats_emits:
  "sameGate p q \<Longrightarrow> sameBeats d1 d2 \<Longrightarrow> emitsBeat p d1 smp = emitsBeat q d2 smp"
  by (simp add: sameBeats_def sameGate_def emitsBeat_def candidateBeat_def beatIntensity_def Let_def)

lemma sameBeats_intensity:
  "sameGate p q \<Longrightarrow> sameBeats d1 d2 \<Longrightarrow> beatIntensity p d1 smp = beatIntensity q d2 smp"
  by (simp add: sameBeats_def sameGate_def beatIntensity_def Let_def)

lemma sameBeats_step:
  assumes "sameGate p q" "sameBeats d1 d2"
  shows "sameBeats (detectStep p d1 smp) (detectStep q d2 smp)"
  using assms sameBeats_emits[OF assms, of smp] sameBeats_intensity[OF assms, of smp]
  by (simp add: sameBeats_def detectStep_beatMap detectStep_lastBeatTime detectStep_lastEnergy)

lemma sameBeats_run:
  "sameGate p q \<Longrightarrow> sameBeats d1 d2 \<Longrightarrow> sameBeats (detectRun p d1 smps) (detectRun q d2 smps)"
  unfolding detectRun_def
  by (induction smps arbitrary: d1 d2) (simp_all add: sameBeats_step)

lemma sameBeats_frames:
  "sameGate p q \<Longrightarrow> sameBeats d1 d2 \<Longrightarrow>
     sameBeats (fst (analyzeFrames dbg p d1 frs)) (fst (analyzeFrames dbg q d2 frs))
     \<and> snd (analyzeFrames dbg p d1 frs) = snd (analyzeFrames dbg q d2 frs)"
proof (induction frs arbitrary: d1 d2)
  case Nil
  then show ?case by simp
next
  case (Cons fr frs)
  from Cons.prems have e: "emitsBeat p d1 (sampleOf fr) = emitsBeat q d2 (sampleOf fr)"
    by (rule sameBeats_emits)
  from Cons.prems have s: "sameBeats (detectStep p d1 (sampleOf fr)) (detectStep q d2 (sampleOf fr))"
    by (rule sameBeats_step)
  show ?case
    using Cons.IH[OF Cons.prems(1) s] e s by (simp add: Let_def)
qed

subsection \<open>The outcome of an analysis run\<close>

lemma runAnalysis_fst:
  "fst (runAnalysis e s) =
     (if audioElement s = None then Rejected else runResult e (debugDiv s) (beatParams s))"
  by (simp add: runAnalysis_def runResult_def Let_def split: option.splits prod.splits)

lemma runAnalysis_beatMap:
  "beatMap (snd (runAnalysis e s)) =
     (if audioElement s = None then [] else runMap e (debugDiv s) (beatParams s))"
  by (simp add: runAnalysis_def runMap_def Let_def split: option.splits prod.splits)

lemma runAnalysis_keeps [simp]:
  "audioElement (snd (runAnalysis e s)) = audioElement s"
  "debugDiv (snd (runAnalysis e s)) = debugDiv s"
  "beatParams (snd (runAnalysis e s)) = beatParams s"
  "isInitialized (snd (runAnalysis e s)) = isInitialized s"
  "audioUrl (snd (runAnalysis e s)) = audioUrl s"
  "audioContext (snd (runAnalysis e s)) = audioContext s"
  "timers (snd (runAnalysis e s)) = timers s"
  "now (snd (runAnalysis e s)) = now s"
  "calls (snd (runAnalysis e s)) = calls s"
  "isPlaying (snd (runAnalysis e s)) = isPlaying s"
  by (simp_all add: runAnalysis_def Let_def split: option.splits prod.splits)

lemma initialize_unfold:
  "\<not> isInitialized s \<Longrightarrow>
   initialize e s =
     (case audioUrl s of
        None \<Rightarrow> (Resolved (), s\<lparr>audioContext := Some (ctxStart e), isInitialized := True\<rparr>)
      | Some url \<Rightarrow>
          if loadOk e
          then (Resolved (), s\<lparr>audioContext := Some (ctxStart e),
                                audioElement := Some \<lparr>a_currentTime = 0, a_paused = True\<rparr>,
                                isInitialized := True\<rparr>)
          else (Rejected, s\<lparr>audioContext := Some (ctxStart e),
                            audioElement := Some \<lparr>a_currentTime = 0, a_paused = True\<rparr>\<rparr>))"
  by (simp add: initialize_def initializeWithFile_def Let_def split: option.splits)

lemma analyzeFullTrack_ready:
  "isInitialized s \<Longrightarrow> analyzeFullTrack e s = runAnalysis e s"
  by (simp add: analyzeFullTrack_def)

lemma analyzeFullTrack_twice:
  "fst (analyzeFullTrack e (snd (analyzeFullTrack e s))) = fst (analyzeFullTrack e s)
   \<and> beatMap (snd (analyzeFullTrack e (snd (analyzeFullTrack e s))))
       = beatMap (snd (analyzeFullTrack e s))"
proof (cases "isInitialized s")
  case True
  then show ?thesis
    by (simp add: analyzeFullTrack_ready runAnalysis_fst runAnalysis_beatMap)
next
  case False
  show ?thesis
  proof (cases "audioUrl s")
    case None
    with False have 1: "analyzeFullTrack e s
        = runAnalysis e (s\<lparr>audioContext := Some (ctxStart e), isInitialized := True\<rparr>)"
      by (simp add: analyzeFullTrack_def initialize_unfold)
    show ?thesis
      unfolding 1 by (simp add: analyzeFullTrack_ready runAnalysis_fst runAnalysis_beatMap)
  next
    case (Some url)
    show ?thesis
    proof (cases "loadOk e")
      case True
      with False Some have 1: "analyzeFullTrack e s
          = runAnalysis e (s\<lparr>audioContext := Some (ctxStart e),
                              audioElement := Some \<lparr>a_currentTime = 0, a_paused = True\<rparr>,
                              isInitialized := True\<rparr>)"
        by (simp add: analyzeFullTrack_def initialize_unfold)
      show ?thesis
        unfolding 1 by (simp add: analyzeFullTrack_ready runAnalysis_fst runAnalysis_beatMap)
    next
      case no: False
      with False Some have 1: "analyzeFullTrack e s
          = (Rejected, s\<lparr>audioContext := Some (ctxStart e),
                          audioElement := Some \<lparr>a_currentTime = 0, a_paused = True\<rparr>\<rparr>)"
        by (simp add: analyzeFullTrack_def initialize_unfold)
      show ?thesis
        unfolding 1 using False Some no by (simp add: analyzeFullTrack_def initialize_unfold)
    qed
  qed
qed

lemma analyzeFullTrack_reset:
  "fst (analyzeFullTrack e (s\<lparr>beatMap := bm, beatHistory := h, dynamicThreshold := t\<rparr>))
     = fst (analyzeFullTrack e s)"
proof (cases "isInitialized s")
  case True
  then show ?thesis
    by (simp add: analyzeFullTrack_ready runAnalysis_fst)
next
  case False
  then show ?thesis
    by (cases "audioUrl s"; cases "loadOk e")
       (simp_all add: analyzeFullTrack_def initialize_unfold runAnalysis_fst)
qed

subsection \<open>Quiet samples and the spike\<close>

lemma quiet_no_beat:
  assumes "0 \<le> snd smp" "snd smp \<le> 120" "0 \<le> lastEnergy d"
  shows "\<not> emitsBeat defaultBeatParams d smp"
  using assms by (simp add: emitsBeat_def candidateBeat_def defaultBeatParams_def Let_def)

lemma quiet_run:
  assumes "list_all (\<lambda>x. 0 \<le> snd x \<and> snd x \<le> 120) smps" "0 \<le> lastEnergy d"
  shows "d_beatMap (detectRun defaultBeatParams d smps) = d_beatMap d
         \<and> lastBeatTime (detectRun defaultBeatParams d smps) = lastBeatTime d
         \<and> 0 \<le> lastEnergy (detectRun defaultBeatParams d smps)"
  using assms unfolding detectRun_def
proof (induction smps arbitrary: d)
  case Nil
  then show ?case by simp
next
  case (Cons smp smps)
  from Cons.prems have q: "\<not> emitsBeat defaultBeatParams d smp"
    by (intro quiet_no_beat) simp_all
  from Cons.prems have "0 \<le> lastEnergy (detectStep defaultBeatParams d smp)"
    by (simp add: detectStep_lastEnergy)
  with Cons.IH[of "detectStep defaultBeatParams d smp"] Cons.prems(1) q show ?case
    by (simp add: detectStep_beatMap detectStep_lastBeatTime)
qed

lemma spike_beat:
  assumes "0 \<le> lastEnergy d" "lastEnergy d \<le> 120" "lastBeatTime d = 0"
  shows "emitsBeat defaultBeatParams d (1, 300)
         \<and> beatIntensity defaultBeatParams d (1, 300) = 1"
  using assms
  by (simp add: emitsBeat_def candidateBeat_def beatIntensity_def defaultBeatParams_def Let_def)

lemma quiet_lastEnergy:
  assumes "list_all (\<lambda>x. 0 \<le> snd x \<and> snd x \<le> 120) smps" "0 \<le> lastEnergy d" "lastEnergy d \<le> 120"
  shows "lastEnergy (detectRun defaultBeatParams d smps) \<le> 120"
  using assms unfolding detectRun_def
  by (induction smps arbitrary: d) (simp_all add: detectStep_lastEnergy)

lemma detectRun_append:
  "detectRun p d (xs @ ys) = detectRun p (detectRun p d xs) ys"
  by (simp add: detectRun_def)

lemma postProcess_short [simp]: "postProcess p [] = []" "postProcess p [b] = [b]"
  by (simp_all add: postProcess_def filterBeats_def keepBeat_def)

lemma analyzeFullTrack_samples:
  assumes "debugDiv s" "fst (analyzeFullTrack e s) = Resolved bm"
  shows "\<exists>frames. analysisRun e = Some frames
           \<and> bm = analyzeSamples (beatParams s) (map sampleOf frames)"
  using analyzeFullTrack_Resolved[OF assms(2)] assms(1)
  by (auto simp: analyzeFrames_debug analyzeSamples_def)

subsection \<open>Arming timers\<close>

lemma setTimeout_keeps [simp]:
  "now (setTimeout f delay s) = now s"
  "beatMap (setTimeout f delay s) = beatMap s"
  "isAnalyzed (setTimeout f delay s) = isAnalyzed s"
  "isPlaying (setTimeout f delay s) = isPlaying s"
  "onBeatDetected (setTimeout f delay s) = onBeatDetected s"
  "audioElement (setTimeout f delay s) = audioElement s"
  "calls (setTimeout f delay s) = calls s"
  by (simp_all add: setTimeout_def)

lemma arm_all:
  "foldl (\<lambda>x b. setTimeout (f b) (g b) x) s bs
     = s\<lparr>timers := timers s @ map (\<lambda>b. \<lparr>due = now s + max 0 (g b), body = f b\<rparr>) bs\<rparr>"
proof (induction bs arbitrary: s)
  case Nil
  show ?case by simp
next
  case (Cons b bs)
  show ?case by (simp add: Cons.IH) (simp add: setTimeout_def)
qed


lemma start_unanalyzed:
  assumes "\<not> isAnalyzed s"
  shows "start e cb s =
     (case analyzeFullTrack e s of
        (Resolved bm, s2) \<Rightarrow> beginPlayback e cb s2
      | (Rejected, s2) \<Rightarrow> (Rejected, s2)
      | (Pending, s2) \<Rightarrow> (Pending, s2))"
proof (cases "isInitialized s")
  case True
  with assms show ?thesis by (simp add: start_def)
next
  case False
  with assms show ?thesis
    by (cases "audioUrl s"; cases "loadOk e")
       (simp_all add: start_def analyzeFullTrack_def initialize_unfold)
qed

lemma analyzeFullTrack_keeps [simp]:
  "timers (snd (analyzeFullTrack e s)) = timers s"
  "now (snd (analyzeFullTrack e s)) = now s"
  "calls (snd (analyzeFullTrack e s)) = calls s"
  "isPlaying (snd (analyzeFullTrack e s)) = isPlaying s"
proof -
  show "timers (snd (analyzeFullTrack e s)) = timers s"
    by (cases "isInitialized s"; cases "audioUrl s"; cases "loadOk e")
       (simp_all add: analyzeFullTrack_def initialize_unfold)
  show "now (snd (analyzeFullTrack e s)) = now s"
    by (cases "isInitialized s"; cases "audioUrl s"; cases "loadOk e")
       (simp_all add: analyzeFullTrack_def initialize_unfold)
  show "calls (snd (analyzeFullTrack e s)) = calls s"
    by (cases "isInitialized s"; cases "audioUrl s"; cases "loadOk e")
       (simp_all add: analyzeFullTrack_def initialize_unfold)
  show "isPlaying (snd (analyzeFullTrack e s)) = isPlaying s"
    by (cases "isInitialized s"; cases "audioUrl s"; cases "loadOk e")
       (simp_all add: analyzeFullTrack_def initialize_unfold)
qed


lemma beginPlayback_rejected_play:
  "\<not> playOk e \<Longrightarrow> fst (beginPlayback e cb s) = Resolved False"
  by (simp add: beginPlayback_def Let_def split: option.splits)

lemma resume_rearms:
  assumes "audioElement s = Some a" "isAnalyzed s" "audioContext s \<noteq> None" "ctxResumeOk e"
  shows "timers (snd (resume e s))
     = timers s @ map (\<lambda>b. \<lparr>due = now s + max 0 ((time b - a_currentTime a) * 1000),
                              body = ResumeTimer b\<rparr>)
                      (filter (\<lambda>b. time b > a_currentTime a) (beatMap s))"
  using assms by (auto simp: resume_def Let_def arm_all)

lemma initialize_isAnalyzed [simp]: "isAnalyzed (snd (initialize e s)) = isAnalyzed s"
  by (simp add: initialize_def initializeWithFile_def Let_def split: option.splits)





lemma initialize_settles:
  "fst (initialize e s) = Resolved () \<or> fst (initialize e s) = Rejected"
  by (cases "isInitialized s"; cases "audioUrl s"; cases "loadOk e")
     (simp_all add: initialize_unfold, simp_all add: initialize_def)

lemma beginPlayback_context_failure:
  assumes "audioContext s = Some Suspended" "\<not> ctxResumeOk e"
  shows "beginPlayback e cb s = (Resolved False, s\<lparr>onBeatDetected := cb\<rparr>)"
  using assms by (simp add: beginPlayback_def Let_def)

text \<open>When the analysis \<open>start\<close> triggers does not resolve, nothing is armed.\<close>

lemma start_without_map:
  assumes "\<not> isAnalyzed s" and "\<forall>bm. fst (analyzeFullTrack e s) \<noteq> Resolved bm"
  shows "fst (start e cb s) = (if fst (analyzeFullTrack e s) = Rejected then Rejected else Pending)
         \<and> timers (snd (start e cb s)) = timers s
         \<and> isPlaying (snd (start e cb s)) = isPlaying s"
proof -
  obtain r s2 where an: "analyzeFullTrack e s = (r, s2)" by (cases "analyzeFullTrack e s")
  have k: "timers s2 = timers s" "isPlaying s2 = isPlaying s"
    using analyzeFullTrack_keeps(1,4)[of e s] an by simp_all
  from assms(2) an have "r = Rejected \<or> r = Pending" by (cases r) auto
  then show ?thesis
    using start_unanalyzed[OF assms(1), of e cb] an k by auto
qed

subsection \<open>The spacing invariant of the obstacle queue\<close>

lemma createPyramid_x [simp]: "ob_x (createPyramid st x i) = x"
  by (simp add: createPyramid_def Let_def)

lemma spawnObstacle_keeps [simp]:
  "settings (spawnObstacle pos i s) = settings s"
  "minObstacleDistance (spawnObstacle pos i s) = minObstacleDistance s"
  "lastObstaclePosition (spawnObstacle pos i s) = pos"
  "plannedObstacles (spawnObstacle pos i s) = plannedObstacles s"
  by (simp_all add: spawnObstacle_def)

lemma spawnObstacle_spaced:
  assumes "wellSpaced s" "trailing s" "lastObstaclePosition s \<le> pos"
    and "\<bar>pos - lastObstaclePosition s\<bar> \<ge> minObstacleDistance s"
  shows "wellSpaced (spawnObstacle pos i s) \<and> trailing (spawnObstacle pos i s)"
proof -
  have far: "\<bar>pos - ob_x a\<bar> \<ge> minObstacleDistance s" if "a \<in> set (obstacleQueue s)" for a
  proof -
    from that assms(2) have "ob_x a \<le> lastObstaclePosition s"
      by (simp add: trailing_def list_all_iff)
    with assms(3,4) show ?thesis by linarith
  qed
  have behind: "ob_x a \<le> pos" if "a \<in> set (obstacleQueue s)" for a
    using that assms(2,3) by (fastforce simp: trailing_def list_all_iff)
  from assms(1) far have "wellSpaced (spawnObstacle pos i s)"
    by (simp add: wellSpaced_def spawnObstacle_def sorted_wrt_append)
  moreover from behind have "trailing (spawnObstacle pos i s)"
    by (simp add: trailing_def spawnObstacle_def list_all_iff)
  ultimately show ?thesis by simp
qed

lemma generateObstacleOnBeat_keeps [simp]:
  "settings (generateObstacleOnBeat i pfp s) = settings s"
  "minObstacleDistance (generateObstacleOnBeat i pfp s) = minObstacleDistance s"
  by (simp_all add: generateObstacleOnBeat_def Let_def)

lemma visitPlanned_keeps [simp]:
  "settings (fst (visitPlanned ct px s k ob)) = settings s"
  "minObstacleDistance (fst (visitPlanned ct px s k ob)) = minObstacleDistance s"
  by (simp_all add: visitPlanned_def Let_def)

lemma lookAhead_Cons_fst:
  "fst (lookAhead ct px s ((k, ob) # rest))
     = fst (lookAhead ct px (fst (visitPlanned ct px s k ob)) rest)"
  by (simp split: prod.splits)

lemma lookAhead_keeps [simp]:
  "settings (fst (lookAhead ct px s pl)) = settings s"
  "minObstacleDistance (fst (lookAhead ct px s pl)) = minObstacleDistance s"
proof (induction pl arbitrary: s)
  case Nil
  { case 1 show ?case by simp }
  { case 2 show ?case by simp }
next
  case (Cons e pl)
  { case 1 show ?case by (cases e) (simp only: lookAhead_Cons_fst Cons.IH visitPlanned_keeps) }
  { case 2 show ?case by (cases e) (simp only: lookAhead_Cons_fst Cons.IH visitPlanned_keeps) }
qed

lemma update_keeps [simp]:
  "settings (update ct px s) = settings s"
  "minObstacleDistance (update ct px s) = minObstacleDistance s"
  "lastObstaclePosition (update ct px s) = lastObstaclePosition (fst (lookAhead ct px s (plannedObstacles s)))"
  "obstacleQueue (update ct px s)
     = filter (\<lambda>ob. \<not> ob_x ob < px + despawnDistance (settings s))
         (obstacleQueue (fst (lookAhead ct px s (plannedObstacles s))))"
proof -
  obtain s1 pl where la: "lookAhead ct px s (plannedObstacles s) = (s1, pl)"
    by (cases "lookAhead ct px s (plannedObstacles s)")
  then have s1: "s1 = fst (lookAhead ct px s (plannedObstacles s))" by simp
  have k: "settings s1 = settings s" "minObstacleDistance s1 = minObstacleDistance s"
    unfolding s1 by simp_all
  show "settings (update ct px s) = settings s"
    using la k by (simp add: update_def)
  show "minObstacleDistance (update ct px s) = minObstacleDistance s"
    using la k by (simp add: update_def)
  show "lastObstaclePosition (update ct px s)
      = lastObstaclePosition (fst (lookAhead ct px s (plannedObstacles s)))"
    using la by (simp add: update_def)
  show "obstacleQueue (update ct px s)
     = filter (\<lambda>ob. \<not> ob_x ob < px + despawnDistance (settings s))
         (obstacleQueue (fst (lookAhead ct px s (plannedObstacles s))))"
    using la k by (simp add: update_def)
qed

lemma react_keeps [simp]:
  "settings (react s ev) = settings s"
  "minObstacleDistance (react s ev) = minObstacleDistance s"
  by (cases ev; simp)+

lemma proposed_react [simp]: "proposed (react s ev) ev' = proposed s ev'"
  by (cases ev') simp_all

lemma preplanObstacles_keeps [simp]:
  "obstacleQueue (preplanObstacles speed bm s) = obstacleQueue s"
  "lastObstaclePosition (preplanObstacles speed bm s) = lastObstaclePosition s"
  "minObstacleDistance (preplanObstacles speed bm s) = minObstacleDistance s"
  "settings (preplanObstacles speed bm s) = settings s"
  by (simp_all add: preplanObstacles_def)

lemma proposed_preplan [simp]: "proposed (preplanObstacles speed bm s) ev = proposed s ev"
  by (cases ev) simp_all

lemma anchored_mono: "anchored B s \<Longrightarrow> B \<subseteq> C \<Longrightarrow> anchored C s"
  by (auto simp: anchored_def)

lemma spawnObstacle_anchored:
  assumes "anchored B s" "0 < minObstacleDistance s"
    and "\<forall>a\<in>B. a - minObstacleDistance s < pos"
    and "\<bar>pos - lastObstaclePosition s\<bar> \<ge> minObstacleDistance s"
  shows "anchored (insert pos B) (spawnObstacle pos i s)"
proof (cases "obstacleQueue s = []")
  case True
  then show ?thesis
    by (simp add: anchored_def wellSpaced_def trailing_def spawnObstacle_def)
next
  case False
  with assms(1) have "lastObstaclePosition s \<in> B" by (simp add: anchored_def)
  with assms(3) have "lastObstaclePosition s - minObstacleDistance s < pos" by blast
  with assms(2,4) have le: "lastObstaclePosition s \<le> pos" by linarith
  from assms(1) have "wellSpaced s" "trailing s" by (simp_all add: anchored_def)
  from spawnObstacle_spaced[OF this le assms(4), of i] show ?thesis
    by (simp add: anchored_def)
qed

lemma generateObstacleOnBeat_anchored:
  assumes "anchored B s" "0 < minObstacleDistance s"
    and "\<forall>a\<in>B. a - minObstacleDistance s < pfp + spawnDistance (settings s)"
  shows "anchored (insert (pfp + spawnDistance (settings s)) B) (generateObstacleOnBeat i pfp s)"
proof (cases "\<bar>pfp + spawnDistance (settings s) - lastObstaclePosition s\<bar> \<ge> minObstacleDistance s")
  case True
  with spawnObstacle_anchored[OF assms True, of i] show ?thesis
    by (simp add: generateObstacleOnBeat_def Let_def)
next
  case False
  with anchored_mono[OF assms(1), of "insert (pfp + spawnDistance (settings s)) B"] show ?thesis
    by (auto simp: generateObstacleOnBeat_def Let_def)
qed

lemma visitPlanned_anchored:
  assumes "anchored B s" "0 < minObstacleDistance s"
    and "\<forall>a\<in>B. a - minObstacleDistance s < px + spawnDistance (settings s)"
  shows "anchored (insert (px + spawnDistance (settings s)) B) (fst (visitPlanned ct px s k ob))"
proof (cases "\<bar>px + spawnDistance (settings s) - lastObstaclePosition s\<bar> \<ge> minObstacleDistance s")
  case True
  with spawnObstacle_anchored[OF assms True, of "p_intensity ob"]
    anchored_mono[OF assms(1), of "insert (px + spawnDistance (settings s)) B"]
  show ?thesis
    by (auto simp: visitPlanned_def Let_def)
next
  case False
  with anchored_mono[OF assms(1), of "insert (px + spawnDistance (settings s)) B"] show ?thesis
    by (auto simp: visitPlanned_def Let_def)
qed

lemma lookAhead_anchored:
  assumes "anchored B s" "0 < minObstacleDistance s"
    and "\<forall>a\<in>B. a - minObstacleDistance s < px + spawnDistance (settings s)"
  shows "anchored (insert (px + spawnDistance (settings s)) B) (fst (lookAhead ct px s pl))"
  using assms
proof (induction pl arbitrary: s B)
  case Nil
  from anchored_mono[OF Nil(1), of "insert (px + spawnDistance (settings s)) B"] show ?case
    by auto
next
  case (Cons e pl)
  obtain k ob where e: "e = (k, ob)" by (cases e)
  let ?c = "px + spawnDistance (settings s)"
  let ?s1 = "fst (visitPlanned ct px s k ob)"
  from visitPlanned_anchored[OF Cons.prems, of ct k ob]
  have 1: "anchored (insert ?c B) ?s1" .
  have 2: "0 < minObstacleDistance ?s1" using Cons.prems(2) by simp
  have 3: "\<forall>a\<in>insert ?c B. a - minObstacleDistance ?s1 < px + spawnDistance (settings ?s1)"
    using Cons.prems(2,3) by simp
  from Cons.IH[OF 1 2 3] show ?case
    by (simp only: e lookAhead_Cons_fst visitPlanned_keeps insert_absorb2)
qed

lemma update_anchored:
  assumes "anchored B s" "0 < minObstacleDistance s"
    and "\<forall>a\<in>B. a - minObstacleDistance s < px + spawnDistance (settings s)"
  shows "anchored (insert (px + spawnDistance (settings s)) B) (update ct px s)"
proof -
  let ?s1 = "fst (lookAhead ct px s (plannedObstacles s))"
  from lookAhead_anchored[OF assms, of ct "plannedObstacles s"]
  have 1: "anchored (insert (px + spawnDistance (settings s)) B) ?s1" .
  then have "wellSpaced (update ct px s)"
    by (simp add: anchored_def wellSpaced_def sorted_wrt_filter)
  moreover from 1 have "trailing (update ct px s)"
    by (simp add: anchored_def trailing_def list_all_iff)
  moreover from 1 have "obstacleQueue (update ct px s) = []
      \<or> lastObstaclePosition (update ct px s) \<in> insert (px + spawnDistance (settings s)) B"
    by (auto simp: anchored_def)
  ultimately show ?thesis by (simp add: anchored_def)
qed

lemma react_anchored:
  assumes "anchored B s" "0 < minObstacleDistance s"
    and "\<forall>a\<in>B. a - minObstacleDistance s < proposed s ev"
  shows "anchored (insert (proposed s ev) B) (react s ev)"
proof (cases ev)
  case (Beat i pfp)
  with assms generateObstacleOnBeat_anchored[of B s pfp i] show ?thesis by simp
next
  case (Frame ct px)
  with assms update_anchored[of B s px ct] show ?thesis by simp
qed

lemma play_anchored:
  assumes "anchored B s" "0 < minObstacleDistance s"
    and "sorted_wrt (\<lambda>a b. a - minObstacleDistance s < b) (map (proposed s) evs)"
    and "\<forall>a\<in>B. \<forall>ev\<in>set evs. a - minObstacleDistance s < proposed s ev"
  shows "wellSpaced (play s evs)"
  using assms unfolding play_def
proof (induction evs arbitrary: s B)
  case Nil
  then show ?case by (simp add: anchored_def)
next
  case (Cons ev evs)
  from Cons.prems(4) have "\<forall>a\<in>B. a - minObstacleDistance s < proposed s ev" by simp
  from react_anchored[OF Cons.prems(1,2) this]
  have 1: "anchored (insert (proposed s ev) B) (react s ev)" .
  have 2: "0 < minObstacleDistance (react s ev)" using Cons.prems(2) by simp
  have 3: "sorted_wrt (\<lambda>a b. a - minObstacleDistance (react s ev) < b)
             (map (proposed (react s ev)) evs)"
    using Cons.prems(3) by (simp add: proposed_react[abs_def])
  have 4: "\<forall>a\<in>insert (proposed s ev) B. \<forall>ev'\<in>set evs.
             a - minObstacleDistance (react s ev) < proposed (react s ev) ev'"
    using Cons.prems(3,4) by auto
  from Cons.IH[OF 1 2 3 4] show ?case by simp
qed

subsection \<open>Raw events of a resolved run\<close>

lemma analysis_debounced:
  assumes "0 \<le> minBeatInterval (beatParams s)"
    and "fst (analyzeFullTrack e s) = Resolved bm"
  shows "successively (gapOk (beatParams s)) bm"
proof -
  from analyzeFullTrack_Resolved[OF assms(2)] obtain frames where
    bm: "bm = postProcess (beatParams s)
           (d_beatMap (fst (analyzeFrames (debugDiv s) (beatParams s) freshDetector frames)))"
    by blast
  have "debounced (beatParams s)
          (fst (analyzeFrames (debugDiv s) (beatParams s) freshDetector frames))"
    by (rule analyzeFrames_debounced[OF debounced_fresh])
  then have raw: "successively (gapOk (beatParams s))
          (d_beatMap (fst (analyzeFrames (debugDiv s) (beatParams s) freshDetector frames)))"
    by (simp add: debounced_def)
  with bm assms(1) show ?thesis by (simp add: postProcess_id)
qed

subsection \<open>Evaluation of concrete runs\<close>

text \<open>The definitions a concrete analysis run and a concrete session unfold to.\<close>

lemmas run_defs =
  analyzeFullTrack_def runAnalysis_def initialize_def initializeWithFile_def setAudioTrack_def newManager_def
  defaultBeatParams_def freshDetector_def detectStep_def trackEnergy_def emitsBeat_def
  candidateBeat_def beatIntensity_def sampleOf_def totalEnergyOf_def bandMean_def
  postProcess_def filterBeats_def keepBeat_def Let_def

lemmas play_defs =
  start_def beginPlayback_def setTimeout_def elapse_def pause_def stop_def resume_def
  session_def twoBeatEnv_def trackSet_def loudFrame_def

lemmas level_defs =
  play_def update_def visitPlanned_def generateObstacleOnBeat_def spawnObstacle_def
  createPyramid_def preplanObstacles_def planBeat_def newLevelGenerator_def wellSpaced_def
  Let_def

text \<open>
  Without the debug panel the frame that emits the first beat stops the loop: the promise
  of the analysis never settles, and the raw event stays in \<open>beatMap\<close>.
\<close>

lemma analysis_stalls_without_debug_panel:
  "fst (analyzeFullTrack twoBeatEnv (setAudioTrack ''track.mp3'' (newManager False))) = Pending
   \<and> beatMap (snd (analyzeFullTrack twoBeatEnv (setAudioTrack ''track.mp3'' (newManager False))))
       = [\<lparr>time = 1, intensity = 1\<rparr>]
   \<and> \<not> isAnalyzed (snd (analyzeFullTrack twoBeatEnv (setAudioTrack ''track.mp3'' (newManager False))))"
  by (simp add: run_defs play_defs)

subsection \<open>Order and spacing of a generated beat map\<close>

text \<open>
  The filter by itself does not establish the disjunction on its output: on the array
  below, which no run of the detector produces, it drops the middle event for being too
  close to its predecessor and keeps the last one for being stronger than the dropped
  one, so that the two events kept are 0.2 s apart and the later is the weaker.
\<close>

lemma filter_alone_keeps_close_pair:
  "postProcess defaultBeatParams
     [\<lparr>time = 0, intensity = 1\<rparr>, \<lparr>time = 1 / 10, intensity = 1 / 2\<rparr>,
      \<lparr>time = 1 / 5, intensity = 7 / 10\<rparr>]
     = [\<lparr>time = 0, intensity = 1\<rparr>, \<lparr>time = 1 / 5, intensity = 7 / 10\<rparr>]
   \<and> \<not> gapOrStronger defaultBeatParams
         \<lparr>time = 0, intensity = 1\<rparr> \<lparr>time = 1 / 5, intensity = 7 / 10\<rparr>"
  by (simp add: postProcess_def filterBeats_def keepBeat_def defaultBeatParams_def
      gapOrStronger_def Let_def)

text \<open>
  Claim C3. Every beat map an analysis run resolves with is strictly ordered by time, and
  each event and its successor are either at least \<open>minBeatInterval\<close> apart or the
  successor is more than 1.2 times as intense. The run is any run of
  \<open>analyzeFullTrack\<close>, from any manager state and over any frames, with a positive
  \<open>minBeatInterval\<close> (the constructor sets 500 and nothing changes it). The map is also
  the one stored in the manager. The debounce gate of the frame loop already spaces the
  raw events, so the sort and the filter of the post-processing leave them as they are.
\<close>

theorem beatMap_ordered_gap_or_stronger:
  assumes "0 < minBeatInterval (beatParams s)"
    and "fst (analyzeFullTrack e s) = Resolved bm"
  shows "sorted_wrt (\<lambda>a b. time a < time b) bm
         \<and> successively (gapOrStronger (beatParams s)) bm
         \<and> beatMap (snd (analyzeFullTrack e s)) = bm"
proof -
  have succ: "successively (gapOk (beatParams s)) bm"
    using assms by (intro analysis_debounced) simp_all
  have "sorted_wrt (gapOk (beatParams s)) bm"
    using assms(1) succ by (intro gap_sorted_wrt) simp_all
  then have strict: "sorted_wrt (\<lambda>a b. time a < time b) bm"
  proof (rule sorted_wrt_mono_rel[rotated])
    fix a b assume "gapOk (beatParams s) a b"
    with assms(1) show "time a < time b"
      by (simp add: gapOk_def)
  qed
  have weak: "successively (gapOrStronger (beatParams s)) bm"
    using succ by (rule successively_mono) (simp add: gapOk_def gapOrStronger_def)
  from analyzeFullTrack_Resolved[OF assms(2)] have "beatMap (snd (analyzeFullTrack e s)) = bm"
    by blast
  with strict weak show ?thesis by simp
qed

text \<open>
  An instance: a freshly constructed manager with a track set, and two frames at 1 s and
  2 s whose twelve lowest bins are all 255.
\<close>

theorem beatMap_ordered_gap_or_stronger_witness:
  "0 < minBeatInterval (beatParams (setAudioTrack ''track.mp3'' (newManager True)))
   \<and> fst (analyzeFullTrack
        \<lparr>loadOk = True, ctxStart = Running,
         analysisRun = Some [([255, 255, 255, 255, 255, 255, 255, 255, 255, 255, 255, 255], 1),
                             ([255, 255, 255, 255, 255, 255, 255, 255, 255, 255, 255, 255], 2)],
         ctxResumeOk = True, playOk = True\<rparr>
        (setAudioTrack ''track.mp3'' (newManager True)))
     = Resolved [\<lparr>time = 1, intensity = 1\<rparr>, \<lparr>time = 2, intensity = 7 / 10\<rparr>]
   \<and> sorted_wrt (\<lambda>a b. time a < time b)
        [\<lparr>time = 1, intensity = 1\<rparr>, \<lparr>time = 2, intensity = 7 / 10\<rparr>]
   \<and> successively (gapOrStronger (beatParams (setAudioTrack ''track.mp3'' (newManager True))))
        [\<lparr>time = 1, intensity = 1\<rparr>, \<lparr>time = 2, intensity = 7 / 10\<rparr>]"
proof -
  let ?s = "setAudioTrack ''track.mp3'' (newManager True)"
  let ?e = "\<lparr>loadOk = True, ctxStart = Running,
         analysisRun = Some [([255, 255, 255, 255, 255, 255, 255, 255, 255, 255, 255, 255], 1),
                             ([255, 255, 255, 255, 255, 255, 255, 255, 255, 255, 255, 255 :: 8 word],
                              2 :: rat)],
         ctxResumeOk = True, playOk = True\<rparr>"
  have pos: "0 < minBeatInterval (beatParams ?s)"
    by (simp add: setAudioTrack_def newManager_def defaultBeatParams_def)
  have run: "fst (analyzeFullTrack ?e ?s)
      = Resolved [\<lparr>time = 1, intensity = 1\<rparr>, \<lparr>time = 2, intensity = 7 / 10\<rparr>]"
    by (simp add: run_defs)
  from beatMap_ordered_gap_or_stronger[OF pos run] pos run show ?thesis
    by simp
qed

text \<open>
  Claim C4. In every beat map an analysis run resolves with, any two events are at least
  \<open>minBeatInterval\<close> (milliseconds, read in seconds) apart, the later one strictly later:
  the statement is about every pair of the list, not only about neighbours, and has no
  intensity exception.
\<close>

theorem beatMap_min_spacing:
  assumes "0 < minBeatInterval (beatParams s)"
    and "fst (analyzeFullTrack e s) = Resolved bm"
  shows "sorted_wrt (\<lambda>a b. time a < time b
                        \<and> time b - time a \<ge> minBeatInterval (beatParams s) / 1000) bm"
proof -
  have "successively (gapOk (beatParams s)) bm"
    using assms by (intro analysis_debounced) simp_all
  with assms(1) have "sorted_wrt (gapOk (beatParams s)) bm"
    by (intro gap_sorted_wrt) simp_all
  then show ?thesis
  proof (rule sorted_wrt_mono_rel[rotated])
    fix a b assume "gapOk (beatParams s) a b"
    with assms(1) show "time a < time b
        \<and> time b - time a \<ge> minBeatInterval (beatParams s) / 1000"
      by (simp add: gapOk_def)
  qed
qed

text \<open>
  An instance: loud frames at 0.5 s, 0.75 s and 1 s; the debounce gate drops the middle
  one.
\<close>

theorem beatMap_min_spacing_witness:
  "0 < minBeatInterval (beatParams (setAudioTrack ''loud.mp3'' (newManager True)))
   \<and> fst (analyzeFullTrack
        \<lparr>loadOk = True, ctxStart = Suspended,
         analysisRun = Some [([255, 255, 255, 255, 255, 255, 255, 255, 255, 255, 255, 255], 1 / 2),
                             ([255, 255, 255, 255, 255, 255, 255, 255, 255, 255, 255, 255], 3 / 4),
                             ([255, 255, 255, 255, 255, 255, 255, 255, 255, 255, 255, 255], 1)],
         ctxResumeOk = True, playOk = True\<rparr>
        (setAudioTrack ''loud.mp3'' (newManager True)))
     = Resolved [\<lparr>time = 1 / 2, intensity = 1\<rparr>, \<lparr>time = 1, intensity = 7 / 10\<rparr>]
   \<and> sorted_wrt (\<lambda>a b. time a < time b
          \<and> time b - time a
              \<ge> minBeatInterval (beatParams (setAudioTrack ''loud.mp3'' (newManager True))) / 1000)
        [\<lparr>time = 1 / 2, intensity = 1\<rparr>, \<lparr>time = 1, intensity = 7 / 10\<rparr>]"
proof -
  let ?s = "setAudioTrack ''loud.mp3'' (newManager True)"
  let ?e = "\<lparr>loadOk = True, ctxStart = Suspended,
         analysisRun = Some [([255, 255, 255, 255, 255, 255, 255, 255, 255, 255, 255, 255], 1 / 2),
                             ([255, 255, 255, 255, 255, 255, 255, 255, 255, 255, 255, 255], 3 / 4),
                             ([255, 255, 255, 255, 255, 255, 255, 255, 255, 255, 255, 255 :: 8 word],
                              1 :: rat)],
         ctxResumeOk = True, playOk = True\<rparr>"
  have pos: "0 < minBeatInterval (beatParams ?s)"
    by (simp add: setAudioTrack_def newManager_def defaultBeatParams_def)
  have run: "fst (analyzeFullTrack ?e ?s)
      = Resolved [\<lparr>time = 1 / 2, intensity = 1\<rparr>, \<lparr>time = 1, intensity = 7 / 10\<rparr>]"
    by (simp add: run_defs)
  from beatMap_min_spacing[OF pos run] pos run show ?thesis
    by simp
qed

subsection \<open>Determinism of the analysis\<close>

text \<open>
  Claim C9. Analysing twice over the same frames gives the same beat map: a second call
  of \<open>analyzeFullTrack\<close>, made in the state the first call left and answered by the same
  environment, settles the same way and leaves the same \<open>beatMap\<close>; and what the call
  settles with does not depend on the \<open>beatMap\<close>, \<open>beatHistory\<close> and \<open>dynamicThreshold\<close>
  it finds, since it resets them (\<open>lastBeatTime\<close> and \<open>lastEnergy\<close> are variables of the
  call itself).
\<close>

theorem analysis_idempotent:
  "fst (analyzeFullTrack e (snd (analyzeFullTrack e s))) = fst (analyzeFullTrack e s)
   \<and> beatMap (snd (analyzeFullTrack e (snd (analyzeFullTrack e s))))
       = beatMap (snd (analyzeFullTrack e s))
   \<and> fst (analyzeFullTrack e (s\<lparr>beatMap := bm, beatHistory := h, dynamicThreshold := t\<rparr>))
       = fst (analyzeFullTrack e s)"
  by (simp add: analyzeFullTrack_twice analyzeFullTrack_reset)

subsection \<open>The adaptive threshold does not reach the output\<close>

text \<open>
  Claim C10. The beat events do not depend on \<open>beatHistory\<close> and \<open>dynamicThreshold\<close>:
  two runs of the detector over the same samples, from states that differ only in these
  two fields, emit the same beat map. The same holds for the parameters that only feed
  the threshold (\<open>historySize\<close>, \<open>dynamicRange\<close>, \<open>beatDecay\<close>), and for the frame loop,
  which also stops or goes on alike in both runs.
\<close>

theorem threshold_state_noninterference:
  "d_beatMap (detectRun (p\<lparr>historySize := n, dynamicRange := r, beatDecay := c\<rparr>)
                (d\<lparr>d_beatHistory := h, d_dynamicThreshold := t\<rparr>) smps)
     = d_beatMap (detectRun p d smps)
   \<and> d_beatMap (fst (analyzeFrames dbg (p\<lparr>historySize := n, dynamicRange := r, beatDecay := c\<rparr>)
                (d\<lparr>d_beatHistory := h, d_dynamicThreshold := t\<rparr>) frs))
     = d_beatMap (fst (analyzeFrames dbg p d frs))
   \<and> snd (analyzeFrames dbg (p\<lparr>historySize := n, dynamicRange := r, beatDecay := c\<rparr>)
                (d\<lparr>d_beatHistory := h, d_dynamicThreshold := t\<rparr>) frs)
     = snd (analyzeFrames dbg p d frs)"
proof -
  let ?p = "p\<lparr>historySize := n, dynamicRange := r, beatDecay := c\<rparr>"
  let ?d = "d\<lparr>d_beatHistory := h, d_dynamicThreshold := t\<rparr>"
  have g: "sameGate ?p p" by (simp add: sameGate_def)
  have b: "sameBeats ?d d" by (simp add: sameBeats_def)
  from sameBeats_run[OF g b, of smps] sameBeats_frames[OF g b, of dbg frs]
  show ?thesis by (simp add: sameBeats_def)
qed

subsection \<open>The detector on synthetic samples\<close>

text \<open>
  Claim C6. With the default parameters, detector and post-filter over a sample sequence
  with one spike of \<open>totalEnergy = 300\<close> at \<open>t = 1\<close> and low energy elsewhere give
  exactly one beat, at time 1 and of intensity 1 (so at least 0.70); over a flat sequence
  of \<open>totalEnergy = 50\<close> they give no beat. Low energy is any value from 0 to 120, at any
  times, before and after the spike. \<open>analyzeSamples\<close> is what \<open>analyzeFullTrack\<close>
  resolves with on the samples of its frames (\<open>analyzeFullTrack_samples\<close>).
\<close>

theorem spike_and_flat:
  assumes "list_all (\<lambda>x. 0 \<le> snd x \<and> snd x \<le> 120) (pre @ post)"
  shows "analyzeSamples defaultBeatParams (pre @ [(1, 300)] @ post)
           = [\<lparr>time = 1, intensity = 1\<rparr>]
         \<and> analyzeSamples defaultBeatParams (map (\<lambda>t. (t, 50)) ts) = []"
proof -
  let ?p = defaultBeatParams
  let ?d1 = "detectRun ?p freshDetector pre"
  let ?d2 = "detectStep ?p ?d1 (1, 300)"
  from assms have pre: "list_all (\<lambda>x. 0 \<le> snd x \<and> snd x \<le> 120) pre"
    and post: "list_all (\<lambda>x. 0 \<le> snd x \<and> snd x \<le> 120) post"
    by simp_all
  have f: "0 \<le> lastEnergy freshDetector" "lastEnergy freshDetector \<le> 120"
    by (simp_all add: freshDetector_def)
  from quiet_run[OF pre f(1)] quiet_lastEnergy[OF pre f]
  have d1: "d_beatMap ?d1 = []" "lastBeatTime ?d1 = 0" "0 \<le> lastEnergy ?d1" "lastEnergy ?d1 \<le> 120"
    by (simp_all add: freshDetector_def)
  from spike_beat[OF d1(3,4,2)]
  have d2: "d_beatMap ?d2 = [\<lparr>time = 1, intensity = 1\<rparr>]" "0 \<le> lastEnergy ?d2"
    by (simp_all add: detectStep_beatMap detectStep_lastEnergy d1)
  from quiet_run[OF post d2(2)] d2(1)
  have "d_beatMap (detectRun ?p ?d2 post) = [\<lparr>time = 1, intensity = 1\<rparr>]"
    by simp
  moreover have "detectRun ?p freshDetector (pre @ [(1, 300)] @ post) = detectRun ?p ?d2 post"
    by (simp add: detectRun_def)
  ultimately have spike: "analyzeSamples ?p (pre @ [(1, 300)] @ post) = [\<lparr>time = 1, intensity = 1\<rparr>]"
    by (simp add: analyzeSamples_def)
  have "list_all (\<lambda>x. 0 \<le> snd x \<and> snd x \<le> 120) (map (\<lambda>t. (t, 50 :: rat)) ts)"
    by (simp add: list_all_iff)
  from quiet_run[OF this f(1)]
  have "analyzeSamples ?p (map (\<lambda>t. (t, 50)) ts) = []"
    by (simp add: analyzeSamples_def freshDetector_def)
  with spike show ?thesis by simp
qed

text \<open>An instance: quiet samples at 0 s, 0.5 s and 1.5 s around the spike.\<close>

theorem spike_and_flat_witness:
  "list_all (\<lambda>x. 0 \<le> snd x \<and> snd x \<le> 120) ([(0, 50), (1 / 2, 50)] @ [(3 / 2, 50 :: rat)])
   \<and> analyzeSamples defaultBeatParams ([(0, 50), (1 / 2, 50)] @ [(1, 300)] @ [(3 / 2, 50)])
       = [\<lparr>time = 1, intensity = 1\<rparr>]
   \<and> analyzeSamples defaultBeatParams (map (\<lambda>t. (t, 50)) [0, 1 / 2, 1]) = []"
proof -
  have h: "list_all (\<lambda>x. 0 \<le> snd x \<and> snd x \<le> 120) ([(0, 50), (1 / 2, 50)] @ [(3 / 2, 50 :: rat)])"
    by simp
  from spike_and_flat[OF h, of "[0, 1 / 2, 1]"] h show ?thesis by simp
qed

subsection \<open>Starting playback\<close>




text \<open>
  Claim C2, as stated: when the audio playback fails to begin, \<open>start\<close> is rejected and
  no timer is left armed, so that no beat callback fires. The code does otherwise: with
  \<open>play()\<close> rejected, \<open>start\<close> resolves with \<open>false\<close>, both beat timers are armed,
  \<open>isPlaying\<close> is true, and after one second the callback is invoked for the first beat.
\<close>

theorem start_play_rejected_counterexample:
  "fst (start (twoBeatEnv\<lparr>playOk := False\<rparr>) (Some 0) trackSet) = Resolved False
   \<and> timers (snd (start (twoBeatEnv\<lparr>playOk := False\<rparr>) (Some 0) trackSet))
       = [\<lparr>due = 1000, body = StartTimer \<lparr>time = 1, intensity = 1\<rparr>\<rparr>,
          \<lparr>due = 2000, body = StartTimer \<lparr>time = 2, intensity = 7 / 10\<rparr>\<rparr>]
   \<and> isPlaying (snd (start (twoBeatEnv\<lparr>playOk := False\<rparr>) (Some 0) trackSet))
   \<and> calls (elapse 1000 (snd (start (twoBeatEnv\<lparr>playOk := False\<rparr>) (Some 0) trackSet)))
       = [\<lparr>callee = 0, args = [1, 1]\<rparr>]"
  by (simp add: run_defs play_defs)

text \<open>
  Claim C2, amended: when the audio playback fails to begin, \<open>start\<close> does not surface
  that failure as a rejection: whenever initialization and the analysis it may trigger
  get through, \<open>start\<close> catches the failure and resolves with the value \<open>false\<close>.
  \<open>start\<close> is rejected, or never settles, only as its initialization or its analysis
  is, both of which run before the \<open>try\<close>. The statement covers every state of the
  manager. (What becomes of the timers is left open here: the other failure inside the
  same \<open>try\<close>, a rejected \<open>audioContext.resume()\<close>, arms none and leaves \<open>isPlaying\<close>
  as it was, \<open>beginPlayback_context_failure\<close>.)
\<close>

theorem start_play_rejected_returns_false:
  assumes "\<not> playOk e"
  shows "fst (start e cb s)
     = (if isAnalyzed s
        then (if isInitialized s \<or> fst (initialize e s) = Resolved () then Resolved False
              else Rejected)
        else (case fst (analyzeFullTrack e s) of
                Resolved bm \<Rightarrow> Resolved False
              | Rejected \<Rightarrow> Rejected
              | Pending \<Rightarrow> Pending))"
proof (cases "isAnalyzed s")
  case False
  obtain r s2 where an: "analyzeFullTrack e s = (r, s2)" by (cases "analyzeFullTrack e s")
  from start_unanalyzed[OF False, of e cb] an assms False show ?thesis
    by (cases r) (simp_all add: beginPlayback_rejected_play)
next
  case True
  show ?thesis
  proof (cases "isInitialized s")
    case init: True
    with True have "start e cb s = beginPlayback e cb s" by (simp add: start_def)
    with assms True init show ?thesis by (simp add: beginPlayback_rejected_play)
  next
    case False
    obtain r s1 where i: "initialize e s = (r, s1)" by (cases "initialize e s")
    from initialize_settles[of e s] i have "r = Resolved () \<or> r = Rejected" by simp
    then show ?thesis
    proof
      assume r: "r = Resolved ()"
      have "isAnalyzed s1" using initialize_isAnalyzed[of e s] i True by simp
      with i r False have "start e cb s = beginPlayback e cb s1" by (simp add: start_def)
      with assms True False i r show ?thesis by (simp add: beginPlayback_rejected_play)
    next
      assume r: "r = Rejected"
      with i False have "start e cb s = (Rejected, s1)" by (simp add: start_def)
      with True False i r show ?thesis by simp
    qed
  qed
qed

text \<open>
  An instance: the first \<open>start\<close> after \<open>setAudioTrack\<close>, whose analysis resolves and
  whose \<open>play()\<close> fails.
\<close>

theorem start_play_rejected_returns_false_witness:
  "\<not> playOk (twoBeatEnv\<lparr>playOk := False\<rparr>)
   \<and> \<not> isAnalyzed trackSet
   \<and> fst (analyzeFullTrack (twoBeatEnv\<lparr>playOk := False\<rparr>) trackSet)
       = Resolved [\<lparr>time = 1, intensity = 1\<rparr>, \<lparr>time = 2, intensity = 7 / 10\<rparr>]
   \<and> fst (start (twoBeatEnv\<lparr>playOk := False\<rparr>) (Some 0) trackSet) = Resolved False"
proof -
  have h: "\<not> playOk (twoBeatEnv\<lparr>playOk := False\<rparr>)" by simp
  have a: "\<not> isAnalyzed trackSet" by (simp add: trackSet_def setAudioTrack_def)
  have r: "fst (analyzeFullTrack (twoBeatEnv\<lparr>playOk := False\<rparr>) trackSet)
       = Resolved [\<lparr>time = 1, intensity = 1\<rparr>, \<lparr>time = 2, intensity = 7 / 10\<rparr>]"
    by (simp add: run_defs play_defs)
  from start_play_rejected_returns_false[OF h, of "Some 0" trackSet] h a r
  show ?thesis by simp
qed

subsection \<open>Pause and resume\<close>

text \<open>
  Claim C1: after a pause at position \<open>p\<close> and a resume, each beat's callback is
  delivered exactly once, without duplicates. \<open>resume\<close> does re-arm only the events
  later than \<open>p\<close>, each \<open>time - p\<close> ahead (\<open>resume_rearms\<close>), but the timers of \<open>start\<close>
  are never cancelled and their guard \<open>isPlaying\<close> is true again after the resume. In
  the session below playback starts, is paused at 1.5 s for 0.2 s and resumed; the beat
  at 2 s is then delivered twice, by the timer of \<open>start\<close> and by the timer of \<open>resume\<close>.
\<close>

theorem resume_duplicates_beat:
  "calls (session twoBeatEnv trackSet
            [Start (Some 0), Wait 1500, Pause, Wait 200, Resume, Wait 1000])
     = [\<lparr>callee = 0, args = [1, 1]\<rparr>,
        \<lparr>callee = 0, args = [7 / 10, 2]\<rparr>,
        \<lparr>callee = 0, args = [7 / 10]\<rparr>]"
  by (simp add: run_defs play_defs)

text \<open>
  Claim C8: every invocation of the beat callback passes the two arguments
  \<open>(intensity, time)\<close>. The timers of \<open>start\<close> do; the timers of \<open>resume\<close> pass the
  intensity alone. In the session below the pause lasts one second, so that the timer
  \<open>start\<close> armed for the beat at 2 s falls due while \<open>isPlaying\<close> is false; the only
  delivery of that beat is the one of the timer \<open>resume\<close> armed, with one argument.
\<close>

theorem resume_callback_one_argument:
  "calls (session twoBeatEnv trackSet
            [Start (Some 0), Wait 1500, Pause, Wait 1000, Resume, Wait 1000])
     = [\<lparr>callee = 0, args = [1, 1]\<rparr>, \<lparr>callee = 0, args = [7 / 10]\<rparr>]
   \<and> timers (session twoBeatEnv trackSet
            [Start (Some 0), Wait 1500, Pause, Wait 1000, Resume])
     = [\<lparr>due = 3000, body = ResumeTimer \<lparr>time = 2, intensity = 7 / 10\<rparr>\<rparr>]"
  by (simp add: run_defs play_defs)

subsection \<open>Spacing of obstacles\<close>

text \<open>
  Claim C7, as stated: at every point of a play session no two live obstacles are closer
  than \<open>minObstacleDistance\<close>, whichever path placed them. Both paths compare the new
  position with \<open>lastObstaclePosition\<close> only. In the session below the beat map has beats
  at 1 s and 2 s and the game speed is 10: the first frame spawns at 35; a beat callback
  whose expected player position is 10 spawns at 45; the next frame, with the player at
  1, spawns at 36, which is 9 from the last obstacle and 1 from the first, and all three
  are in the queue.
\<close>

theorem spacing_counterexample:
  "map ob_x (obstacleQueue
      (play (preplanObstacles 10 [\<lparr>time = 1, intensity = 1\<rparr>, \<lparr>time = 2, intensity = 7 / 10\<rparr>]
               newLevelGenerator)
            [Frame 0 0, Beat 1 10, Frame (1 / 10) 1])) = [35, 45, 36]
   \<and> \<not> wellSpaced
      (play (preplanObstacles 10 [\<lparr>time = 1, intensity = 1\<rparr>, \<lparr>time = 2, intensity = 7 / 10\<rparr>]
               newLevelGenerator)
            [Frame 0 0, Beat 1 10, Frame (1 / 10) 1])"
  by (simp add: level_defs)

text \<open>
  Claim C7, amended: at every point of a play session no two live obstacles are closer
  than \<open>minObstacleDistance\<close>, whichever path placed them, provided no position proposed
  for spawning (\<open>playerX + spawnDistance\<close> by a frame,
  \<open>playerFuturePos + spawnDistance\<close> by a beat callback) lies \<open>minObstacleDistance\<close>
  or more behind a position proposed earlier in the session. The session starts from a
  new generator after \<open>preplanObstacles\<close>; \<open>take n\<close> gives the points of the session.
\<close>

theorem spacing_when_positions_advance:
  assumes "sorted_wrt (\<lambda>a b. a - minObstacleDistance newLevelGenerator < b)
             (map (proposed newLevelGenerator) evs)"
  shows "wellSpaced (play (preplanObstacles speed bm newLevelGenerator) (take n evs))"
proof -
  let ?s = "preplanObstacles speed bm newLevelGenerator"
  have a: "anchored {} ?s"
    by (simp add: anchored_def wellSpaced_def trailing_def newLevelGenerator_def)
  have m: "0 < minObstacleDistance ?s" by (simp add: newLevelGenerator_def)
  have "sorted_wrt (\<lambda>a b. a - minObstacleDistance newLevelGenerator < b)
          (take n (map (proposed newLevelGenerator) evs))"
    using assms by (rule sorted_wrt_take)
  then have s: "sorted_wrt (\<lambda>a b. a - minObstacleDistance ?s < b)
          (map (proposed ?s) (take n evs))"
    by (simp add: take_map proposed_preplan[abs_def])
  from play_anchored[OF a m s] show ?thesis by simp
qed

text \<open>
  An instance: a frame, a beat callback that proposes a position slightly behind it (too
  close, no spawn) and a frame six units further.
\<close>

theorem spacing_when_positions_advance_witness:
  "sorted_wrt (\<lambda>a b. a - minObstacleDistance newLevelGenerator < b)
     (map (proposed newLevelGenerator) [Frame 0 0, Beat 1 (- (1 / 100)), Frame (3 / 5) 6])
   \<and> wellSpaced
      (play (preplanObstacles 10 [\<lparr>time = 1, intensity = 1\<rparr>, \<lparr>time = 2, intensity = 7 / 10\<rparr>]
               newLevelGenerator)
            (take 3 [Frame 0 0, Beat 1 (- (1 / 100)), Frame (3 / 5) 6]))
   \<and> map ob_x (obstacleQueue
      (play (preplanObstacles 10 [\<lparr>time = 1, intensity = 1\<rparr>, \<lparr>time = 2, intensity = 7 / 10\<rparr>]
               newLevelGenerator)
            (take 3 [Frame 0 0, Beat 1 (- (1 / 100)), Frame (3 / 5) 6]))) = [35, 41]"
proof -
  have h: "sorted_wrt (\<lambda>a b. a - minObstacleDistance newLevelGenerator < b)
     (map (proposed newLevelGenerator) [Frame 0 0, Beat 1 (- (1 / 100)), Frame (3 / 5) 6])"
    by (simp add: newLevelGenerator_def)
  have q: "map ob_x (obstacleQueue
      (play (preplanObstacles 10 [\<lparr>time = 1, intensity = 1\<rparr>, \<lparr>time = 2, intensity = 7 / 10\<rparr>]
               newLevelGenerator)
            (take 3 [Frame 0 0, Beat 1 (- (1 / 100)), Frame (3 / 5) 6]))) = [35, 41]"
    by (simp add: level_defs)
  from spacing_when_positions_advance[OF h, of 10 "[\<lparr>time = 1, intensity = 1\<rparr>, \<lparr>time = 2, intensity = 7 / 10\<rparr>]" 3]
    h q show ?thesis by simp
qed

end
